theory Spec2Isabelle
  imports Main "HOL-Library.AList"
begin

section \<open>The bot manager of \<^verbatim>\<open>bot.py\<close>\<close>

text \<open>
  \<^verbatim>\<open>bot.py\<close> is a Telegram bot that hosts other bots: every hosted bot runs in a
  child process (\<^verbatim>\<open>BotProcess\<close>), and one \<^verbatim>\<open>BotManager\<close> keeps the two dictionaries
  \<^verbatim>\<open>processes\<close> (bot id to process object) and \<^verbatim>\<open>tokens\<close> (bot id to token) and writes
  \<^verbatim>\<open>tokens\<close> to \<^verbatim>\<open>running_bots.json\<close>.

  The embedding passes the state explicitly. A Python \<^verbatim>\<open>dict\<close> is an association list
  in insertion order: lookup is \<open>map_of\<close>, \<^verbatim>\<open>d[k] = v\<close> is \<open>AList.update\<close> (in place for
  a key that is there, appended for a new one, as Python orders a dict) and
  \<^verbatim>\<open>del d[k]\<close> is \<open>AList.delete\<close>. What the program cannot decide by itself (the answer
  of the Telegram API, the clock, whether a process starts, whether it exits when asked
  to, whether the file can be written) is read from an environment record.
\<close>

subsection \<open>Configuration\<close>

definition MAX_BOTS :: nat where
  "MAX_BOTS = 10"

subsection \<open>The clock and the minted bot id\<close>

text \<open>
  \<^verbatim>\<open>datetime.now()\<close> has a resolution of one microsecond; the format
  \<^verbatim>\<open>'%Y%m%d_%H%M%S'\<close> prints it down to the second, every field in decimal and padded
  with zeros (four digits for the year of a date of today, two for the others).
\<close>

record datetime =
  year :: nat
  month :: nat
  day :: nat
  hour :: nat
  minute :: nat
  second :: nat
  microsecond :: nat

definition digit_char :: "nat \<Rightarrow> char" where
  "digit_char d = ''0123456789'' ! (d mod 10)"

fun zpad :: "nat \<Rightarrow> nat \<Rightarrow> string" where
  "zpad 0 n = []"
| "zpad (Suc w) n = zpad w (n div 10) @ [digit_char n]"

definition strftime :: "datetime \<Rightarrow> string" where
  "strftime t =
     zpad 4 (year t) @ zpad 2 (month t) @ zpad 2 (day t) @ ''_'' @
     zpad 2 (hour t) @ zpad 2 (minute t) @ zpad 2 (second t)"

definition new_bot_id :: "datetime \<Rightarrow> string" where
  "new_bot_id t = ''bot_'' @ strftime t"

subsection \<open>Processes, the snapshot file, the log\<close>

text \<open>
  A \<^verbatim>\<open>BotProcess\<close> object: the three attributes its constructor sets, and the process
  id it has once \<^verbatim>\<open>start()\<close> has returned.
\<close>

record BotProcess =
  token :: string
  bot_id :: string
  daemon :: bool
  pid :: "nat option"

text \<open>
  \<^verbatim>\<open>running_bots.json\<close>, by what \<^verbatim>\<open>json.load\<close> makes of it: the file is absent, or
  \<^verbatim>\<open>json.load\<close> raises on it, or it holds a JSON object. \<^verbatim>\<open>save_bots\<close> writes an object
  with the one member \<^verbatim>\<open>tokens\<close>, a dictionary of strings; the documents of the model
  are the objects whose members all have that shape. The encoding of the text belongs to
  the \<^verbatim>\<open>json\<close> module and is not modelled.
\<close>

datatype file_state =
  Missing
| Unreadable
| Doc "(string \<times> (string \<times> string) list) list"

datatype exn = JSONDecodeError | OSError

datatype log_entry =
  Info_loaded nat
| Info_restarting string
| Error_loading exn
| Error_saving
| Info_added string nat
| Info_removed string
| Info_all_stopped
| Error_validating

text \<open>
  The state: the two dictionaries of the manager, the file, the process ids that are
  alive in the operating system, the next process id it hands out, and the lines
  logged so far.
\<close>

record world =
  processes :: "(string \<times> BotProcess) list"
  tokens :: "(string \<times> string) list"
  data_file :: file_state
  live :: "nat set"
  next_pid :: nat
  logged :: "log_entry list"

subsection \<open>The environment\<close>

text \<open>
  The answer to \<^verbatim>\<open>GET /bot<token>/getMe\<close>: the request fails (any exception), or it
  returns a status and a body whose member \<^verbatim>\<open>ok\<close> is absent or a truth value.
\<close>

datatype api_reply = Request_failed | Reply nat "bool option"

text \<open>
  What happens to \<^verbatim>\<open>open(BOTS_DATA_FILE, 'w')\<close> followed by \<^verbatim>\<open>json.dump\<close>: both succeed;
  or \<^verbatim>\<open>open\<close> raises and the file stays as it was; or \<^verbatim>\<open>open\<close> has truncated the file
  and the write raises, which leaves a text that \<^verbatim>\<open>json.load\<close> rejects.
\<close>

datatype write_outcome = Written | Open_failed | Dump_failed

record env =
  getMe :: "string \<Rightarrow> api_reply"
  now :: datetime
  start_ok :: "string \<Rightarrow> bool"
  exits_on_term :: "nat \<Rightarrow> bool"
  disk :: write_outcome

text \<open>
  \<open>start_ok e b\<close>: \<^verbatim>\<open>start()\<close> of the process made for bot id \<open>b\<close> returns (otherwise it
  raises \<^verbatim>\<open>OSError\<close>). \<open>exits_on_term e n\<close>: process \<open>n\<close>, sent \<^verbatim>\<open>SIGTERM\<close> by
  \<^verbatim>\<open>terminate()\<close>, has exited before \<^verbatim>\<open>join(timeout=5)\<close> returns. One call of a method or
  handler meets one environment; the next call may meet another.
\<close>

subsection \<open>Dictionaries\<close>

text \<open>
  \<^verbatim>\<open>k in d\<close> and \<^verbatim>\<open>d.get(k, default)\<close>. The keys of a Python dictionary are pairwise
  different; a property that needs this of an association list says so
  (\<open>distinct (map fst d)\<close>).
\<close>

definition has_key :: "('k \<times> 'v) list \<Rightarrow> 'k \<Rightarrow> bool" where
  "has_key d k = (k \<in> set (map fst d))"

definition dict_get :: "('k \<times> 'v) list \<Rightarrow> 'k \<Rightarrow> 'v \<Rightarrow> 'v" where
  "dict_get d k dflt = (case map_of d k of None \<Rightarrow> dflt | Some v \<Rightarrow> v)"

subsection \<open>\<^verbatim>\<open>BotProcess\<close>\<close>

definition BotProcess_init :: "string \<Rightarrow> string \<Rightarrow> BotProcess" where
  "BotProcess_init tok bid = \<lparr>token = tok, bot_id = bid, daemon = True, pid = None\<rparr>"

text \<open>\<^verbatim>\<open>process.start()\<close>: \<open>None\<close> when it raises.\<close>

definition start :: "env \<Rightarrow> world \<Rightarrow> BotProcess \<Rightarrow> (world \<times> BotProcess) option" where
  "start e w p =
     (if start_ok e (bot_id p)
      then Some (w\<lparr>live := insert (next_pid w) (live w), next_pid := Suc (next_pid w)\<rparr>,
                 p\<lparr>pid := Some (next_pid w)\<rparr>)
      else None)"

definition is_alive :: "world \<Rightarrow> BotProcess \<Rightarrow> bool" where
  "is_alive w p = (case pid p of None \<Rightarrow> False | Some n \<Rightarrow> n \<in> live w)"

text \<open>\<^verbatim>\<open>process.terminate()\<close> followed by \<^verbatim>\<open>process.join(timeout=5)\<close>.\<close>

definition terminate_join :: "env \<Rightarrow> world \<Rightarrow> BotProcess \<Rightarrow> world" where
  "terminate_join e w p =
     (case pid p of
        None \<Rightarrow> w
      | Some n \<Rightarrow> if exits_on_term e n then w\<lparr>live := live w - {n}\<rparr> else w)"

subsection \<open>\<^verbatim>\<open>BotManager\<close>\<close>

text \<open>
  The id to token pairs that a reader of the file gets (lines 62 to 65):
  \<^verbatim>\<open>data.get('tokens', {})\<close> of a document, and nothing from a file that is absent or
  that \<^verbatim>\<open>json.load\<close> rejects.
\<close>

definition persisted :: "file_state \<Rightarrow> (string \<times> string) list" where
  "persisted f = (case f of Doc data \<Rightarrow> dict_get data ''tokens'' [] | _ \<Rightarrow> [])"

text \<open>
  The loop of \<^verbatim>\<open>load_saved_bots\<close> over \<^verbatim>\<open>self.tokens.items()\<close>. The second component
  is the exception that left the loop, if one did; the entries after it are not
  visited.
\<close>

fun restart_saved :: "env \<Rightarrow> (string \<times> string) list \<Rightarrow> world \<Rightarrow> world \<times> exn option" where
  "restart_saved e [] w = (w, None)"
| "restart_saved e ((bid, tok) # rest) w =
     (let w1 = w\<lparr>logged := logged w @ [Info_restarting bid]\<rparr> in
      case start e w1 (BotProcess_init tok bid) of
        None \<Rightarrow> (w1, Some OSError)
      | Some (w2, p) \<Rightarrow>
          restart_saved e rest (w2\<lparr>processes := AList.update bid p (processes w2)\<rparr>))"

text \<open>The body of the \<^verbatim>\<open>try\<close> of \<^verbatim>\<open>load_saved_bots\<close>.\<close>

definition load_try :: "env \<Rightarrow> world \<Rightarrow> world \<times> exn option" where
  "load_try e w =
     (case data_file w of
        Missing \<Rightarrow> (w, None)
      | Unreadable \<Rightarrow> (w, Some JSONDecodeError)
      | Doc data \<Rightarrow>
          (let w1 = w\<lparr>tokens := persisted (data_file w)\<rparr>;
               w2 = w1\<lparr>logged := logged w1 @ [Info_loaded (length (tokens w1))]\<rparr>
           in restart_saved e (tokens w2) w2))"

text \<open>
  \<^verbatim>\<open>load_saved_bots\<close>: the \<^verbatim>\<open>try\<close> and its handler, which logs the exception. The
  second component is the exception that leaves the method.
\<close>

definition load_saved_bots :: "env \<Rightarrow> world \<Rightarrow> world \<times> exn option" where
  "load_saved_bots e w =
     (case load_try e w of
        (w', None) \<Rightarrow> (w', None)
      | (w', Some x) \<Rightarrow> (w'\<lparr>logged := logged w' @ [Error_loading x]\<rparr>, None))"

text \<open>
  \<^verbatim>\<open>BotManager()\<close>: two empty dictionaries, then \<^verbatim>\<open>load_saved_bots\<close>. The supervisor
  has no child process yet.
\<close>

definition empty_registry :: "file_state \<Rightarrow> world" where
  "empty_registry f =
     \<lparr>processes = [], tokens = [], data_file = f, live = {}, next_pid = 0, logged = []\<rparr>"

definition BotManager_init :: "env \<Rightarrow> file_state \<Rightarrow> world \<times> exn option" where
  "BotManager_init e f = load_saved_bots e (empty_registry f)"

definition save_bots :: "env \<Rightarrow> world \<Rightarrow> world" where
  "save_bots e w =
     (case disk e of
        Written \<Rightarrow> w\<lparr>data_file := Doc [(''tokens'', tokens w)]\<rparr>
      | Open_failed \<Rightarrow> w\<lparr>logged := logged w @ [Error_saving]\<rparr>
      | Dump_failed \<Rightarrow> w\<lparr>data_file := Unreadable, logged := logged w @ [Error_saving]\<rparr>)"

definition add_bot :: "env \<Rightarrow> world \<Rightarrow> string \<Rightarrow> string \<Rightarrow> BotProcess \<Rightarrow> world" where
  "add_bot e w bid tok p =
     (let w1 = w\<lparr>processes := AList.update bid p (processes w)\<rparr>;
          w2 = w1\<lparr>tokens := AList.update bid tok (tokens w1)\<rparr>;
          w3 = save_bots e w2
      in w3\<lparr>logged := logged w3 @ [Info_added bid (length (processes w3))]\<rparr>)"

definition remove_bot :: "env \<Rightarrow> world \<Rightarrow> string \<Rightarrow> world" where
  "remove_bot e w bid =
     (let w1 =
        (case map_of (processes w) bid of
           None \<Rightarrow> w
         | Some p \<Rightarrow>
             (let w' = (if is_alive w p then terminate_join e w p else w) in
              w'\<lparr>processes := AList.delete bid (processes w'),
                 logged := logged w' @ [Info_removed bid]\<rparr>))
      in if has_key (tokens w1) bid
         then save_bots e (w1\<lparr>tokens := AList.delete bid (tokens w1)\<rparr>)
         else w1)"

fun stop_loop :: "env \<Rightarrow> string list \<Rightarrow> world \<Rightarrow> world" where
  "stop_loop e [] w = w"
| "stop_loop e (bid # bids) w = stop_loop e bids (remove_bot e w bid)"

definition stop_all_bots :: "env \<Rightarrow> world \<Rightarrow> world" where
  "stop_all_bots e w =
     (let w1 = stop_loop e (map fst (processes w)) w
      in w1\<lparr>logged := logged w1 @ [Info_all_stopped]\<rparr>)"

definition get_bot_count :: "world \<Rightarrow> nat" where
  "get_bot_count w = length (processes w)"

definition is_token_used :: "world \<Rightarrow> string \<Rightarrow> bool" where
  "is_token_used w tok = (tok \<in> set (map snd (tokens w)))"

subsection \<open>The handlers of the main bot\<close>

text \<open>
  \<^verbatim>\<open>validate_token\<close>: true only for status 200 with \<^verbatim>\<open>ok\<close> true; an exception is
  logged and gives false.
\<close>

definition api_accepts :: "env \<Rightarrow> string \<Rightarrow> bool" where
  "api_accepts e tok =
     (case getMe e tok of
        Request_failed \<Rightarrow> False
      | Reply status ok \<Rightarrow>
          if status = 200 then (case ok of None \<Rightarrow> False | Some b \<Rightarrow> b) else False)"

definition validate_token :: "env \<Rightarrow> world \<Rightarrow> string \<Rightarrow> world \<times> bool" where
  "validate_token e w tok =
     (case getMe e tok of
        Request_failed \<Rightarrow> (w\<lparr>logged := logged w @ [Error_validating]\<rparr>, False)
      | Reply status ok \<Rightarrow> (w, api_accepts e tok))"

text \<open>
  What \<^verbatim>\<open>handle_token\<close> answers. The three refusals are its three early returns
  (invalid token, token already used, limit reached); \<open>Launched\<close> carries the id of the
  success message; \<open>Unhandled\<close> is an exception that leaves the handler.
\<close>

datatype reply =
  InvalidCredential
| DuplicateCredential
| CapacityExceeded
| Launched string
| Unhandled exn

text \<open>
  \<^verbatim>\<open>handle_token\<close> of \<^verbatim>\<open>main\<close>, from the point where \<^verbatim>\<open>token\<close> holds the stripped text of
  the message. After the \<^verbatim>\<open>await\<close> of \<^verbatim>\<open>validate_token\<close> the handler runs to its answer
  without yielding to the event loop.
\<close>

definition handle_token :: "env \<Rightarrow> world \<Rightarrow> string \<Rightarrow> world \<times> reply" where
  "handle_token e w tok =
     (case validate_token e w tok of
        (w0, False) \<Rightarrow> (w0, InvalidCredential)
      | (w0, True) \<Rightarrow>
          if is_token_used w0 tok then (w0, DuplicateCredential)
          else if get_bot_count w0 \<ge> MAX_BOTS then (w0, CapacityExceeded)
          else
            (let bid = new_bot_id (now e) in
             case start e w0 (BotProcess_init tok bid) of
               None \<Rightarrow> (w0, Unhandled OSError)
             | Some (w1, p) \<Rightarrow> (add_bot e w1 bid tok p, Launched bid)))"

datatype stop_reply = Stopped | NotFound

text \<open>
  \<^verbatim>\<open>stop_specific_bot\<close>, from the point where \<^verbatim>\<open>bot_id\<close> holds the id taken from the
  callback data.
\<close>

definition stop_specific_bot :: "env \<Rightarrow> world \<Rightarrow> string \<Rightarrow> world \<times> stop_reply" where
  "stop_specific_bot e w bid =
     (if has_key (processes w) bid then (remove_bot e w bid, Stopped) else (w, NotFound))"

subsection \<open>Runs\<close>

text \<open>
  A run is a list of commands, each with the environment it meets: a token sent to
  \<^verbatim>\<open>handle_token\<close>, a call of \<^verbatim>\<open>remove_bot\<close>, or \<^verbatim>\<open>stop_all_bots\<close>.
\<close>

datatype command = Add string | Remove string | StopAll

fun step :: "world \<Rightarrow> env \<times> command \<Rightarrow> world" where
  "step w (e, Add tok) = fst (handle_token e w tok)"
| "step w (e, Remove bid) = remove_bot e w bid"
| "step w (e, StopAll) = stop_all_bots e w"

definition run :: "world \<Rightarrow> (env \<times> command) list \<Rightarrow> world" where
  "run w cs = foldl step w cs"

subsection \<open>The invariant of the two dictionaries\<close>

text \<open>
  \<^verbatim>\<open>tokens\<close> lists, in the same order, the token of every process of \<^verbatim>\<open>processes\<close>; no
  token occurs twice; at most \<^verbatim>\<open>MAX_BOTS\<close> processes are tracked.
\<close>

definition registry_inv :: "world \<Rightarrow> bool" where
  "registry_inv w \<longleftrightarrow>
     tokens w = map (\<lambda>(k, p). (k, token p)) (processes w) \<and>
     distinct (map snd (tokens w)) \<and>
     length (processes w) \<le> MAX_BOTS"

subsection \<open>Environments and clock readings of the examples\<close>

definition noon :: datetime where
  "noon = \<lparr>year = 2026, month = 1, day = 2, hour = 12, minute = 0, second = 0,
            microsecond = 0\<rparr>"

text \<open>Half a second after \<open>noon\<close>, and a second after it.\<close>

definition noon_and_a_half :: datetime where
  "noon_and_a_half = noon\<lparr>microsecond := 500000\<rparr>"

definition noon_and_one :: datetime where
  "noon_and_one = noon\<lparr>second := 1\<rparr>"

text \<open>
  Nothing fails: the API accepts every token, every process starts and exits when
  asked to, the file is written.
\<close>

definition calm :: "datetime \<Rightarrow> env" where
  "calm t =
     \<lparr>getMe = (\<lambda>_. Reply 200 (Some True)), now = t, start_ok = (\<lambda>_. True),
      exits_on_term = (\<lambda>_. True), disk = Written\<rparr>"

text \<open>The API answers 401 to every token.\<close>

definition rejecting :: "datetime \<Rightarrow> env" where
  "rejecting t = (calm t)\<lparr>getMe := (\<lambda>_. Reply 401 (Some False))\<rparr>"

text \<open>No process exits within the five seconds after \<^verbatim>\<open>terminate()\<close>.\<close>

definition stubborn :: "datetime \<Rightarrow> env" where
  "stubborn t = (calm t)\<lparr>exits_on_term := (\<lambda>_. False)\<rparr>"

text \<open>The process of bot id \<open>b\<close> does not start.\<close>

definition failing_start :: "string \<Rightarrow> datetime \<Rightarrow> env" where
  "failing_start b t = (calm t)\<lparr>start_ok := (\<lambda>k. k \<noteq> b)\<rparr>"

text \<open>A snapshot file with three bots.\<close>

definition three_bots :: file_state where
  "three_bots = Doc [(''tokens'', [(''a'', ''tokA''), (''b'', ''tokB''), (''c'', ''tokC'')])]"

subsection \<open>States that agree on the registry\<close>

text \<open>
  \<open>same_registry w w'\<close>: the two dictionaries, the file and the live processes of \<open>w'\<close>
  are those of \<open>w\<close> (the log may differ).
\<close>

definition same_registry :: "world \<Rightarrow> world \<Rightarrow> bool" where
  "same_registry w w' \<longleftrightarrow>
     processes w' = processes w \<and> tokens w' = tokens w \<and>
     data_file w' = data_file w \<and> live w' = live w"

subsection \<open>The records that a recovery makes\<close>

text \<open>
  \<open>respawned n xs\<close>: for the id and token pairs \<open>xs\<close>, in their order, the process
  records that \<^verbatim>\<open>BotProcess(token, bot_id)\<close> and \<^verbatim>\<open>start()\<close> make when the first of them
  gets process id \<open>n\<close>, each under its id.
\<close>

definition respawned :: "nat \<Rightarrow> (string \<times> string) list \<Rightarrow> (string \<times> BotProcess) list" where
  "respawned n xs =
     map (\<lambda>(i, (k, t)). (k, \<lparr>token = t, bot_id = k, daemon = True, pid = Some i\<rparr>))
       (enumerate n xs)"

text \<open>The entries of a snapshot up to the first one whose process does not start.\<close>

definition started_prefix :: "env \<Rightarrow> (string \<times> string) list \<Rightarrow> (string \<times> string) list" where
  "started_prefix e xs = takeWhile (\<lambda>(k, t). start_ok e k) xs"

section \<open>Properties\<close>

subsection \<open>Dictionaries as association lists\<close>

lemma map_update_val:
  "map (\<lambda>(k, v). (k, g v)) (AList.update k0 v0 xs) =
   AList.update k0 (g v0) (map (\<lambda>(k, v). (k, g v)) xs)"
  by (induction xs) auto

lemma map_delete_val:
  "map (\<lambda>(k, v). (k, g v)) (AList.delete k0 xs) =
   AList.delete k0 (map (\<lambda>(k, v). (k, g v)) xs)"
  by (induction xs) auto

lemma set_snd_update_subset:
  "snd ` set (AList.update k v xs) \<subseteq> insert v (snd ` set xs)"
  by (induction xs) auto

lemma distinct_snd_update:
  "distinct (map snd xs) \<Longrightarrow> v \<notin> snd ` set xs \<Longrightarrow> distinct (map snd (AList.update k v xs))"
proof (induction xs)
  case Nil
  then show ?case by simp
next
  case (Cons x xs)
  obtain k' v' where x: "x = (k', v')" by (cases x)
  show ?case
  proof (cases "k' = k")
    case True
    with Cons.prems x show ?thesis by auto
  next
    case False
    have "v' \<notin> snd ` set (AList.update k v xs)"
      using set_snd_update_subset [of k v xs] Cons.prems x by auto
    with False Cons x show ?thesis by auto
  qed
qed

lemma distinct_snd_delete:
  "distinct (map snd xs) \<Longrightarrow> distinct (map snd (AList.delete k xs))"
  by (simp add: AList.delete_eq distinct_map_filter)

lemma length_update_le: "length (AList.update k v xs) \<le> Suc (length xs)"
  by (induction xs) auto

lemma update_fresh_key: "k \<notin> fst ` set xs \<Longrightarrow> AList.update k v xs = xs @ [(k, v)]"
  by (induction xs) auto

subsection \<open>What each operation does to the fields of the state\<close>

lemma save_bots_fields [simp]:
  "processes (save_bots e w) = processes w"
  "tokens (save_bots e w) = tokens w"
  "live (save_bots e w) = live w"
  "next_pid (save_bots e w) = next_pid w"
  by (simp_all add: save_bots_def split: write_outcome.splits)

lemma save_bots_written:
  "disk e = Written \<Longrightarrow> data_file (save_bots e w) = Doc [(''tokens'', tokens w)]"
  by (simp add: save_bots_def)

lemma persisted_tokens_doc [simp]: "persisted (Doc [(''tokens'', ts)]) = ts"
  by (simp add: persisted_def dict_get_def)

lemma processes_remove_bot: "processes (remove_bot e w bid) = AList.delete bid (processes w)"
  by (auto simp: remove_bot_def Let_def terminate_join_def has_key_def map_of_eq_None_iff
      split: option.splits)

lemma tokens_remove_bot: "tokens (remove_bot e w bid) = AList.delete bid (tokens w)"
  by (auto simp: remove_bot_def Let_def terminate_join_def has_key_def
      split: option.splits)

lemma validate_token_snd: "snd (validate_token e w tok) = api_accepts e tok"
  by (simp add: validate_token_def api_accepts_def split: api_reply.splits)

lemma validate_token_fst:
  "processes (fst (validate_token e w tok)) = processes w"
  "tokens (fst (validate_token e w tok)) = tokens w"
  "data_file (fst (validate_token e w tok)) = data_file w"
  "live (fst (validate_token e w tok)) = live w"
  "next_pid (fst (validate_token e w tok)) = next_pid w"
  by (simp_all add: validate_token_def split: api_reply.splits)

subsection \<open>The invariant holds along every run\<close>

lemma registry_invD:
  assumes "registry_inv w"
  shows "tokens w = map (\<lambda>(k, p). (k, token p)) (processes w)"
    and "distinct (map snd (tokens w))"
    and "length (processes w) \<le> MAX_BOTS"
  using assms unfolding registry_inv_def by blast+

lemma registry_invI:
  assumes "tokens w = map (\<lambda>(k, p). (k, token p)) (processes w)"
    and "distinct (map snd (tokens w))"
    and "length (processes w) \<le> MAX_BOTS"
  shows "registry_inv w"
  using assms unfolding registry_inv_def by blast

lemma registry_inv_remove_bot:
  assumes "registry_inv w"
  shows "registry_inv (remove_bot e w bid)"
proof -
  from assms have t: "tokens w = map (\<lambda>(k, p). (k, token p)) (processes w)"
    and d: "distinct (map snd (tokens w))" and n: "length (processes w) \<le> MAX_BOTS"
    by (rule registry_invD)+
  have "tokens (remove_bot e w bid) =
        map (\<lambda>(k, p). (k, token p)) (processes (remove_bot e w bid))"
    by (simp only: processes_remove_bot tokens_remove_bot map_delete_val t)
  moreover have "distinct (map snd (tokens (remove_bot e w bid)))"
    using d by (simp only: tokens_remove_bot distinct_snd_delete)
  moreover have "length (processes (remove_bot e w bid)) \<le> MAX_BOTS"
    using n length_delete_le [of bid "processes w"] by (simp add: processes_remove_bot)
  ultimately show ?thesis by (rule registry_invI)
qed

lemma registry_inv_stop_loop: "registry_inv w \<Longrightarrow> registry_inv (stop_loop e bids w)"
  by (induction bids arbitrary: w) (simp_all add: registry_inv_remove_bot)

lemma registry_inv_logged [simp]: "registry_inv (w\<lparr>logged := l\<rparr>) = registry_inv w"
  by (simp add: registry_inv_def)

lemma registry_inv_stop_all_bots: "registry_inv w \<Longrightarrow> registry_inv (stop_all_bots e w)"
  by (simp add: stop_all_bots_def Let_def registry_inv_stop_loop)

lemma handle_token_cases:
  "handle_token e w tok =
     (let w0 = fst (validate_token e w tok) in
      if \<not> api_accepts e tok then (w0, InvalidCredential)
      else if is_token_used w tok then (w0, DuplicateCredential)
      else if MAX_BOTS \<le> get_bot_count w then (w0, CapacityExceeded)
      else if \<not> start_ok e (new_bot_id (now e)) then (w0, Unhandled OSError)
      else
        (add_bot e
           (w0\<lparr>live := insert (next_pid w) (live w), next_pid := Suc (next_pid w)\<rparr>)
           (new_bot_id (now e)) tok
           \<lparr>token = tok, bot_id = new_bot_id (now e), daemon = True, pid = Some (next_pid w)\<rparr>,
         Launched (new_bot_id (now e))))"
  by (auto simp: handle_token_def validate_token_def api_accepts_def Let_def is_token_used_def
      get_bot_count_def start_def BotProcess_init_def split: api_reply.splits option.splits)

lemma add_bot_fields:
  "processes (add_bot e w bid tok p) = AList.update bid p (processes w)"
  "tokens (add_bot e w bid tok p) = AList.update bid tok (tokens w)"
  "live (add_bot e w bid tok p) = live w"
  "next_pid (add_bot e w bid tok p) = next_pid w"
  by (simp_all add: add_bot_def Let_def)

lemma handle_token_processes:
  "processes (fst (handle_token e w tok)) =
     (if snd (handle_token e w tok) = Launched (new_bot_id (now e))
      then AList.update (new_bot_id (now e))
             \<lparr>token = tok, bot_id = new_bot_id (now e), daemon = True, pid = Some (next_pid w)\<rparr>
             (processes w)
      else processes w)"
  by (simp add: handle_token_cases Let_def add_bot_fields validate_token_fst)

lemma handle_token_tokens:
  "tokens (fst (handle_token e w tok)) =
     (if snd (handle_token e w tok) = Launched (new_bot_id (now e))
      then AList.update (new_bot_id (now e)) tok (tokens w)
      else tokens w)"
  by (simp add: handle_token_cases Let_def add_bot_fields validate_token_fst)

lemma handle_token_Launched:
  "snd (handle_token e w tok) = Launched b \<Longrightarrow>
     \<not> is_token_used w tok \<and> get_bot_count w < MAX_BOTS \<and> b = new_bot_id (now e)"
  by (simp add: handle_token_cases Let_def split: if_splits)

lemma registry_inv_handle_token:
  assumes "registry_inv w"
  shows "registry_inv (fst (handle_token e w tok))"
proof (cases "snd (handle_token e w tok) = Launched (new_bot_id (now e))")
  case False
  then have "processes (fst (handle_token e w tok)) = processes w"
    and "tokens (fst (handle_token e w tok)) = tokens w"
    by (simp_all add: handle_token_processes handle_token_tokens)
  with assms show ?thesis unfolding registry_inv_def by metis
next
  case True
  let ?b = "new_bot_id (now e)"
  let ?p = "\<lparr>token = tok, bot_id = ?b, daemon = True, pid = Some (next_pid w)\<rparr>"
  from assms have t: "tokens w = map (\<lambda>(k, p). (k, token p)) (processes w)"
    and d: "distinct (map snd (tokens w))"
    by (rule registry_invD)+
  from True have fresh: "tok \<notin> snd ` set (tokens w)" and room: "length (processes w) < MAX_BOTS"
    using handle_token_Launched [of e w tok ?b]
    by (simp_all add: is_token_used_def get_bot_count_def)
  have P: "processes (fst (handle_token e w tok)) = AList.update ?b ?p (processes w)"
    using True by (simp add: handle_token_processes)
  have T: "tokens (fst (handle_token e w tok)) = AList.update ?b tok (tokens w)"
    using True by (simp add: handle_token_tokens)
  have "map (\<lambda>(k, p). (k, token p)) (AList.update ?b ?p (processes w)) =
        AList.update ?b (token ?p) (map (\<lambda>(k, p). (k, token p)) (processes w))"
    by (rule map_update_val)
  then have 1: "tokens (fst (handle_token e w tok)) =
      map (\<lambda>(k, p). (k, token p)) (processes (fst (handle_token e w tok)))"
    by (simp add: P T t)
  have 2: "distinct (map snd (tokens (fst (handle_token e w tok))))"
    unfolding T using d fresh by (rule distinct_snd_update)
  have 3: "length (processes (fst (handle_token e w tok))) \<le> MAX_BOTS"
    unfolding P using room length_update_le [of ?b ?p "processes w"] by simp
  from 1 2 3 show ?thesis by (rule registry_invI)
qed

lemma registry_inv_step: "registry_inv w \<Longrightarrow> registry_inv (step w c)"
  by (cases "(w, c)" rule: step.cases)
    (simp_all add: registry_inv_handle_token registry_inv_remove_bot registry_inv_stop_all_bots)

lemma registry_inv_run: "registry_inv w \<Longrightarrow> registry_inv (run w cs)"
  unfolding run_def by (induction cs arbitrary: w) (simp_all add: registry_inv_step)

text \<open>
  Claim C1. Start from a registry with no process and no token and run any list of
  commands (tokens sent to \<^verbatim>\<open>handle_token\<close>, calls of \<^verbatim>\<open>remove_bot\<close>, calls of
  \<^verbatim>\<open>stop_all_bots\<close>), in any environment. After every prefix of the run,
  \<^verbatim>\<open>get_bot_count()\<close> is at most \<^verbatim>\<open>MAX_BOTS\<close>, no token occurs twice in \<^verbatim>\<open>tokens\<close>, and
  no two tracked processes have the same token.
\<close>

theorem registry_bounded_and_unique:
  assumes "processes w0 = []" and "tokens w0 = []"
  shows "get_bot_count (run w0 (take n cs)) \<le> MAX_BOTS \<and>
         distinct (map snd (tokens (run w0 (take n cs)))) \<and>
         distinct (map (\<lambda>(k, p). token p) (processes (run w0 (take n cs))))"
proof -
  from assms have "registry_inv w0" by (simp add: registry_inv_def)
  then have inv: "registry_inv (run w0 (take n cs))" by (rule registry_inv_run)
  let ?w = "run w0 (take n cs)"
  from inv have t: "tokens ?w = map (\<lambda>(k, p). (k, token p)) (processes ?w)"
    and d: "distinct (map snd (tokens ?w))" and l: "length (processes ?w) \<le> MAX_BOTS"
    by (rule registry_invD)+
  have "map snd (map (\<lambda>(k, p). (k, token p)) (processes ?w)) =
        map (\<lambda>(k, p). token p) (processes ?w)"
    by (simp add: case_prod_beta comp_def)
  with t d have "distinct (map (\<lambda>(k, p). token p) (processes ?w))" by metis
  with d l show ?thesis by (simp add: get_bot_count_def)
qed

theorem registry_bounded_and_unique_witness:
  "processes (empty_registry Missing) = [] \<and> tokens (empty_registry Missing) = [] \<and>
   get_bot_count (run (empty_registry Missing)
     (take 2 [(calm noon, Add ''tokA''), (calm noon_and_one, Add ''tokB''),
              (calm noon, Remove ''bot_20260102_120000'')])) \<le> MAX_BOTS \<and>
   distinct (map snd (tokens (run (empty_registry Missing)
     (take 2 [(calm noon, Add ''tokA''), (calm noon_and_one, Add ''tokB''),
              (calm noon, Remove ''bot_20260102_120000'')])))) \<and>
   distinct (map (\<lambda>(k, p). token p) (processes (run (empty_registry Missing)
     (take 2 [(calm noon, Add ''tokA''), (calm noon_and_one, Add ''tokB''),
              (calm noon, Remove ''bot_20260102_120000'')]))))"
  using registry_bounded_and_unique [of "empty_registry Missing" 2
      "[(calm noon, Add ''tokA''), (calm noon_and_one, Add ''tokB''),
        (calm noon, Remove ''bot_20260102_120000'')]"]
  by (simp add: empty_registry_def)

subsection \<open>\<^verbatim>\<open>handle_token\<close>\<close>

lemma same_registry_validate_token: "same_registry w (fst (validate_token e w tok))"
  by (simp add: same_registry_def validate_token_fst)

lemma new_bot_id_noon: "new_bot_id noon = ''bot_20260102_120000''"
  by code_simp

lemma new_bot_id_microsecond [simp]: "new_bot_id (t\<lparr>microsecond := m\<rparr>) = new_bot_id t"
  by (simp add: new_bot_id_def strftime_def)

lemma new_bot_id_noon_and_a_half: "new_bot_id noon_and_a_half = ''bot_20260102_120000''"
  by (simp add: noon_and_a_half_def new_bot_id_noon)

lemma new_bot_id_noon_and_one: "new_bot_id noon_and_one = ''bot_20260102_120001''"
  by code_simp

text \<open>
  Claim C2. \<^verbatim>\<open>handle_token\<close> checks in a fixed order and the first failure wins: a token
  that \<^verbatim>\<open>validate_token\<close> refuses is answered \<open>InvalidCredential\<close>, whatever the registry
  holds; a valid token that is already in \<^verbatim>\<open>tokens\<close> is answered
  \<open>DuplicateCredential\<close>, whatever the count; a valid new token when \<^verbatim>\<open>MAX_BOTS\<close>
  processes are tracked is answered \<open>CapacityExceeded\<close>; in these three cases the
  registry, the file and the processes stay as they were. Otherwise the handler mints
  the id from the clock, starts a process with the token and that id and, when the
  start returns, stores the process and the token under the id, answers with the id,
  and the file holds the new \<^verbatim>\<open>tokens\<close> when the write succeeds.
\<close>

theorem handle_token_checks_in_order:
  "(\<not> snd (validate_token e w tok) \<longrightarrow>
      snd (handle_token e w tok) = InvalidCredential \<and>
      same_registry w (fst (handle_token e w tok))) \<and>
   (snd (validate_token e w tok) \<and> is_token_used w tok \<longrightarrow>
      snd (handle_token e w tok) = DuplicateCredential \<and>
      same_registry w (fst (handle_token e w tok))) \<and>
   (snd (validate_token e w tok) \<and> \<not> is_token_used w tok \<and> MAX_BOTS \<le> get_bot_count w \<longrightarrow>
      snd (handle_token e w tok) = CapacityExceeded \<and>
      same_registry w (fst (handle_token e w tok))) \<and>
   (snd (validate_token e w tok) \<and> \<not> is_token_used w tok \<and> get_bot_count w < MAX_BOTS \<and>
    start_ok e (new_bot_id (now e)) \<longrightarrow>
      snd (handle_token e w tok) = Launched (new_bot_id (now e)) \<and>
      processes (fst (handle_token e w tok)) =
        AList.update (new_bot_id (now e))
          \<lparr>token = tok, bot_id = new_bot_id (now e), daemon = True, pid = Some (next_pid w)\<rparr>
          (processes w) \<and>
      live (fst (handle_token e w tok)) = insert (next_pid w) (live w) \<and>
      tokens (fst (handle_token e w tok)) = AList.update (new_bot_id (now e)) tok (tokens w) \<and>
      (disk e = Written \<longrightarrow>
         persisted (data_file (fst (handle_token e w tok))) =
         tokens (fst (handle_token e w tok))))"
proof -
  let ?w0 = "fst (validate_token e w tok)"
  let ?b = "new_bot_id (now e)"
  let ?p = "\<lparr>token = tok, bot_id = ?b, daemon = True, pid = Some (next_pid w)\<rparr>"
  let ?w1 = "?w0\<lparr>live := insert (next_pid w) (live w), next_pid := Suc (next_pid w)\<rparr>"
  have same: "same_registry w ?w0" by (rule same_registry_validate_token)
  have invalid: "handle_token e w tok = (?w0, InvalidCredential)"
    if "\<not> snd (validate_token e w tok)"
    using that by (simp add: handle_token_cases validate_token_snd Let_def)
  have duplicate: "handle_token e w tok = (?w0, DuplicateCredential)"
    if "snd (validate_token e w tok) \<and> is_token_used w tok"
    using that by (simp add: handle_token_cases validate_token_snd Let_def)
  have full: "handle_token e w tok = (?w0, CapacityExceeded)"
    if "snd (validate_token e w tok) \<and> \<not> is_token_used w tok \<and> MAX_BOTS \<le> get_bot_count w"
    using that by (simp add: handle_token_cases validate_token_snd Let_def)
  have launched: "handle_token e w tok = (add_bot e ?w1 ?b tok ?p, Launched ?b)"
    if "snd (validate_token e w tok) \<and> \<not> is_token_used w tok \<and> get_bot_count w < MAX_BOTS \<and>
        start_ok e ?b"
    using that by (simp add: handle_token_cases validate_token_snd Let_def)
  have written: "persisted (data_file (add_bot e ?w1 ?b tok ?p)) = tokens (add_bot e ?w1 ?b tok ?p)"
    if "disk e = Written"
    using that by (simp add: add_bot_def Let_def save_bots_def)
  show ?thesis
  proof (intro conjI impI)
    assume "\<not> snd (validate_token e w tok)"
    then show "snd (handle_token e w tok) = InvalidCredential"
      and "same_registry w (fst (handle_token e w tok))"
      using same by (simp_all add: invalid)
  next
    assume "snd (validate_token e w tok) \<and> is_token_used w tok"
    then show "snd (handle_token e w tok) = DuplicateCredential"
      and "same_registry w (fst (handle_token e w tok))"
      using same by (simp_all add: duplicate)
  next
    assume "snd (validate_token e w tok) \<and> \<not> is_token_used w tok \<and> MAX_BOTS \<le> get_bot_count w"
    then show "snd (handle_token e w tok) = CapacityExceeded"
      and "same_registry w (fst (handle_token e w tok))"
      using same by (simp_all add: full)
  next
    assume ok: "snd (validate_token e w tok) \<and> \<not> is_token_used w tok \<and>
        get_bot_count w < MAX_BOTS \<and> start_ok e ?b"
    show "snd (handle_token e w tok) = Launched ?b"
      by (simp add: launched [OF ok])
    show "processes (fst (handle_token e w tok)) = AList.update ?b ?p (processes w)"
      by (simp add: launched [OF ok] add_bot_fields validate_token_fst)
    show "live (fst (handle_token e w tok)) = insert (next_pid w) (live w)"
      by (simp add: launched [OF ok] add_bot_fields)
    show "tokens (fst (handle_token e w tok)) = AList.update ?b tok (tokens w)"
      by (simp add: launched [OF ok] add_bot_fields validate_token_fst)
    assume "disk e = Written"
    then show "persisted (data_file (fst (handle_token e w tok))) =
        tokens (fst (handle_token e w tok))"
      using written by (simp add: launched [OF ok])
  qed
qed

lemma calm_fields [simp]:
  "getMe (calm t) = (\<lambda>_. Reply 200 (Some True))"
  "now (calm t) = t"
  "start_ok (calm t) = (\<lambda>_. True)"
  "exits_on_term (calm t) = (\<lambda>_. True)"
  "disk (calm t) = Written"
  by (simp_all add: calm_def)

lemma api_accepts_calm [simp]: "api_accepts (calm t) tok"
  by (simp add: api_accepts_def)

lemma api_accepts_rejecting [simp]: "\<not> api_accepts (rejecting t) tok"
  by (simp add: api_accepts_def rejecting_def)

lemma empty_registry_fields [simp]:
  "processes (empty_registry f) = []"
  "tokens (empty_registry f) = []"
  "data_file (empty_registry f) = f"
  "live (empty_registry f) = {}"
  "next_pid (empty_registry f) = 0"
  "logged (empty_registry f) = []"
  by (simp_all add: empty_registry_def)

theorem handle_token_checks_in_order_witness:
  "snd (handle_token (rejecting noon) (empty_registry Missing) ''tokA'') = InvalidCredential \<and>
   snd (handle_token (calm noon_and_one)
          (fst (handle_token (calm noon) (empty_registry Missing) ''tokA'')) ''tokA'') =
     DuplicateCredential \<and>
   snd (handle_token (calm noon) (empty_registry Missing) ''tokA'') =
     Launched ''bot_20260102_120000'' \<and>
   tokens (fst (handle_token (calm noon) (empty_registry Missing) ''tokA'')) =
     [(''bot_20260102_120000'', ''tokA'')] \<and>
   persisted (data_file (fst (handle_token (calm noon) (empty_registry Missing) ''tokA''))) =
     [(''bot_20260102_120000'', ''tokA'')]"
proof -
  let ?w0 = "empty_registry Missing"
  let ?w1 = "fst (handle_token (calm noon) ?w0 ''tokA'')"
  have "\<not> snd (validate_token (rejecting noon) ?w0 ''tokA'')"
    by (simp add: validate_token_snd)
  with handle_token_checks_in_order [of "rejecting noon" ?w0 "''tokA''"]
  have 1: "snd (handle_token (rejecting noon) ?w0 ''tokA'') = InvalidCredential"
    by blast
  have "snd (validate_token (calm noon) ?w0 ''tokA'') \<and> \<not> is_token_used ?w0 ''tokA'' \<and>
        get_bot_count ?w0 < MAX_BOTS \<and> start_ok (calm noon) (new_bot_id (now (calm noon)))"
    by (simp add: validate_token_snd is_token_used_def get_bot_count_def MAX_BOTS_def)
  with handle_token_checks_in_order [of "calm noon" ?w0 "''tokA''"]
  have 3: "snd (handle_token (calm noon) ?w0 ''tokA'') = Launched (new_bot_id (now (calm noon)))"
    and 4: "tokens ?w1 = AList.update (new_bot_id (now (calm noon))) ''tokA'' (tokens ?w0)"
    and 5: "disk (calm noon) = Written \<longrightarrow> persisted (data_file ?w1) = tokens ?w1"
    by blast+
  from 4 have toks: "tokens ?w1 = [(''bot_20260102_120000'', ''tokA'')]"
    by (simp add: new_bot_id_noon)
  have "snd (validate_token (calm noon_and_one) ?w1 ''tokA'') \<and> is_token_used ?w1 ''tokA''"
    by (simp add: validate_token_snd is_token_used_def toks)
  with handle_token_checks_in_order [of "calm noon_and_one" ?w1 "''tokA''"]
  have 2: "snd (handle_token (calm noon_and_one) ?w1 ''tokA'') = DuplicateCredential"
    by blast
  have launched: "snd (handle_token (calm noon) ?w0 ''tokA'') = Launched ''bot_20260102_120000''"
    using 3 by (simp only: calm_fields new_bot_id_noon)
  have "persisted (data_file ?w1) = tokens ?w1"
    using 5 by (simp only: calm_fields)
  then have pers: "persisted (data_file ?w1) = [(''bot_20260102_120000'', ''tokA'')]"
    by (simp only: toks)
  show ?thesis by (intro conjI) (fact 1 2 launched toks pers)+
qed

subsection \<open>\<^verbatim>\<open>remove_bot\<close> and \<^verbatim>\<open>stop_specific_bot\<close> on an unknown id\<close>

text \<open>
  Claim C10. For a bot id that is in neither dictionary, \<^verbatim>\<open>remove_bot\<close> returns the state
  it was given: nothing is terminated, deleted, written or logged. For a bot id that is
  not in \<^verbatim>\<open>processes\<close>, \<^verbatim>\<open>stop_specific_bot\<close> answers \<open>NotFound\<close> and returns the state it
  was given.
\<close>

theorem remove_unknown_is_noop:
  "(\<not> has_key (processes w) bid \<and> \<not> has_key (tokens w) bid \<longrightarrow> remove_bot e w bid = w) \<and>
   (\<not> has_key (processes w) bid \<longrightarrow> stop_specific_bot e w bid = (w, NotFound))"
proof (intro conjI impI)
  assume "\<not> has_key (processes w) bid \<and> \<not> has_key (tokens w) bid"
  then have "map_of (processes w) bid = None" and "\<not> has_key (tokens w) bid"
    by (simp_all add: has_key_def map_of_eq_None_iff)
  then show "remove_bot e w bid = w"
    by (simp add: remove_bot_def)
next
  assume "\<not> has_key (processes w) bid"
  then show "stop_specific_bot e w bid = (w, NotFound)"
    by (simp add: stop_specific_bot_def)
qed

theorem remove_unknown_is_noop_witness:
  "remove_bot (calm noon_and_one) (fst (handle_token (calm noon) (empty_registry Missing) ''tokA''))
     ''bot_19990101_000000'' =
   fst (handle_token (calm noon) (empty_registry Missing) ''tokA'') \<and>
   stop_specific_bot (calm noon_and_one)
     (fst (handle_token (calm noon) (empty_registry Missing) ''tokA'')) ''bot_19990101_000000'' =
   (fst (handle_token (calm noon) (empty_registry Missing) ''tokA''), NotFound)"
proof -
  let ?w = "fst (handle_token (calm noon) (empty_registry Missing) ''tokA'')"
  have "processes ?w = AList.update (new_bot_id noon)
      \<lparr>token = ''tokA'', bot_id = new_bot_id noon, daemon = True, pid = Some 0\<rparr> []"
    and "tokens ?w = AList.update (new_bot_id noon) ''tokA'' []"
    by (simp_all add: handle_token_cases Let_def add_bot_fields validate_token_fst
        is_token_used_def get_bot_count_def MAX_BOTS_def)
  then have "\<not> has_key (processes ?w) ''bot_19990101_000000''"
    and "\<not> has_key (tokens ?w) ''bot_19990101_000000''"
    by (simp_all add: has_key_def new_bot_id_noon)
  with remove_unknown_is_noop [of ?w "''bot_19990101_000000''" "calm noon_and_one"]
  show ?thesis by (intro conjI) blast+
qed

subsection \<open>\<^verbatim>\<open>load_saved_bots\<close>\<close>

lemma respawned_simps [simp]:
  "respawned n [] = []"
  "respawned n ((k, t) # xs) =
     (k, \<lparr>token = t, bot_id = k, daemon = True, pid = Some n\<rparr>) # respawned (Suc n) xs"
  by (simp_all add: respawned_def)

lemma map_fst_respawned [simp]: "map fst (respawned n xs) = map fst xs"
  by (induction xs arbitrary: n) auto

lemma length_respawned [simp]: "length (respawned n xs) = length xs"
  by (simp add: respawned_def)

lemma started_prefix_simps [simp]:
  "started_prefix e [] = []"
  "started_prefix e ((k, t) # xs) = (if start_ok e k then (k, t) # started_prefix e xs else [])"
  by (simp_all add: started_prefix_def)

lemma started_prefix_all: "\<forall>k \<in> set (map fst xs). start_ok e k \<Longrightarrow> started_prefix e xs = xs"
  by (induction xs) auto

lemma restart_saved_keeps:
  "tokens (fst (restart_saved e rest w)) = tokens w \<and>
   data_file (fst (restart_saved e rest w)) = data_file w \<and>
   next_pid w \<le> next_pid (fst (restart_saved e rest w))"
proof (induction e rest w rule: restart_saved.induct)
  case (1 e w)
  show ?case by simp
next
  case (2 e bid tok rest w)
  show ?case
  proof (cases "start_ok e bid")
    case False
    then show ?thesis by (simp add: Let_def start_def BotProcess_init_def)
  next
    case True
    let ?w1 = "w\<lparr>logged := logged w @ [Info_restarting bid]\<rparr>"
    let ?p = "\<lparr>token = tok, bot_id = bid, daemon = True, pid = Some (next_pid w)\<rparr>"
    let ?w2 = "?w1\<lparr>live := insert (next_pid w) (live w), next_pid := Suc (next_pid w)\<rparr>"
    let ?w3 = "?w2\<lparr>processes := AList.update bid ?p (processes ?w2)\<rparr>"
    have st: "start e ?w1 (BotProcess_init tok bid) = Some (?w2, ?p)"
      using True by (simp add: start_def BotProcess_init_def)
    have step: "restart_saved e ((bid, tok) # rest) w = restart_saved e rest ?w3"
      by (simp add: Let_def st)
    from "2.IH" [OF refl st refl] show ?thesis
      by (simp add: step del: restart_saved.simps)
  qed
qed

lemma restart_saved_processes:
  assumes "distinct (map fst rest)" and "set (map fst rest) \<inter> fst ` set (processes w) = {}"
  shows "processes (fst (restart_saved e rest w)) =
           processes w @ respawned (next_pid w) (started_prefix e rest) \<and>
         live (fst (restart_saved e rest w)) =
           live w \<union> {next_pid w ..< next_pid w + length (started_prefix e rest)} \<and>
         snd (restart_saved e rest w) =
           (if started_prefix e rest = rest then None else Some OSError)"
  using assms
proof (induction e rest w rule: restart_saved.induct)
  case (1 e w)
  then show ?case by simp
next
  case (2 e bid tok rest w)
  show ?case
  proof (cases "start_ok e bid")
    case False
    then show ?thesis by (simp add: Let_def start_def BotProcess_init_def)
  next
    case True
    let ?w1 = "w\<lparr>logged := logged w @ [Info_restarting bid]\<rparr>"
    let ?p = "\<lparr>token = tok, bot_id = bid, daemon = True, pid = Some (next_pid w)\<rparr>"
    let ?w2 = "?w1\<lparr>live := insert (next_pid w) (live w), next_pid := Suc (next_pid w)\<rparr>"
    let ?w3 = "?w2\<lparr>processes := AList.update bid ?p (processes ?w2)\<rparr>"
    have st: "start e ?w1 (BotProcess_init tok bid) = Some (?w2, ?p)"
      using True by (simp add: start_def BotProcess_init_def)
    have step: "restart_saved e ((bid, tok) # rest) w = restart_saved e rest ?w3"
      by (simp add: Let_def st)
    from "2.prems" have fresh: "bid \<notin> fst ` set (processes w)" by auto
    then have upd: "AList.update bid ?p (processes w) = processes w @ [(bid, ?p)]"
      by (rule update_fresh_key)
    have keys: "fst ` set (processes ?w3) = insert bid (fst ` set (processes w))"
      by (simp add: dom_update)
    from "2.prems" have d: "distinct (map fst rest)" by simp
    from "2.prems" have disj: "set (map fst rest) \<inter> fst ` set (processes ?w3) = {}"
      unfolding keys by auto
    have IH: "processes (fst (restart_saved e rest ?w3)) =
           processes ?w3 @ respawned (next_pid ?w3) (started_prefix e rest) \<and>
         live (fst (restart_saved e rest ?w3)) =
           live ?w3 \<union> {next_pid ?w3 ..< next_pid ?w3 + length (started_prefix e rest)} \<and>
         snd (restart_saved e rest ?w3) =
           (if started_prefix e rest = rest then None else Some OSError)"
      using "2.IH" [OF refl st refl d disj] .
    have "{next_pid w ..< next_pid w + Suc n} = insert (next_pid w) {Suc (next_pid w) ..< Suc (next_pid w) + n}" for n
      by auto
    with IH True show ?thesis
      by (simp add: step upd del: restart_saved.simps)
  qed
qed

lemma load_saved_bots_never_raises: "snd (load_saved_bots e w) = None"
  by (simp add: load_saved_bots_def split: prod.splits option.splits)

lemma load_saved_bots_fields:
  "processes (fst (load_saved_bots e w)) = processes (fst (load_try e w))"
  "tokens (fst (load_saved_bots e w)) = tokens (fst (load_try e w))"
  "data_file (fst (load_saved_bots e w)) = data_file (fst (load_try e w))"
  "live (fst (load_saved_bots e w)) = live (fst (load_try e w))"
  "next_pid (fst (load_saved_bots e w)) = next_pid (fst (load_try e w))"
  "logged (fst (load_saved_bots e w)) =
     logged (fst (load_try e w)) @
     (case snd (load_try e w) of None \<Rightarrow> [] | Some x \<Rightarrow> [Error_loading x])"
  by (cases "load_try e w"; simp add: load_saved_bots_def split: option.splits)+

lemma BotManager_init_tokens: "tokens (fst (BotManager_init e f)) = persisted f"
proof (cases f)
  case Missing
  then show ?thesis
    by (simp add: BotManager_init_def load_saved_bots_def load_try_def persisted_def)
next
  case Unreadable
  then show ?thesis
    by (simp add: BotManager_init_def load_saved_bots_def load_try_def persisted_def)
next
  case (Doc data)
  let ?w2 = "(empty_registry f)\<lparr>tokens := persisted f, logged := [Info_loaded (length (persisted f))]\<rparr>"
  have body: "load_try e (empty_registry f) = restart_saved e (persisted f) ?w2"
    using Doc by (simp add: load_try_def Let_def)
  have "tokens (fst (restart_saved e (persisted f) ?w2)) = persisted f"
    by (simp add: restart_saved_keeps)
  then show ?thesis
    by (simp add: BotManager_init_def load_saved_bots_fields body)
qed

lemma BotManager_init_file: "data_file (fst (BotManager_init e f)) = f"
proof (cases f)
  case Missing
  then show ?thesis
    by (simp add: BotManager_init_def load_saved_bots_def load_try_def)
next
  case Unreadable
  then show ?thesis
    by (simp add: BotManager_init_def load_saved_bots_def load_try_def)
next
  case (Doc data)
  let ?w2 = "(empty_registry f)\<lparr>tokens := persisted f, logged := [Info_loaded (length (persisted f))]\<rparr>"
  have body: "load_try e (empty_registry f) = restart_saved e (persisted f) ?w2"
    using Doc by (simp add: load_try_def Let_def)
  have "data_file (fst (restart_saved e (persisted f) ?w2)) = f"
    by (simp add: restart_saved_keeps)
  then show ?thesis
    by (simp add: BotManager_init_def load_saved_bots_fields body)
qed

lemma BotManager_init_unreadable:
  assumes "f = Missing \<or> f = Unreadable"
  shows "processes (fst (BotManager_init e f)) = []"
    and "tokens (fst (BotManager_init e f)) = []"
    and "live (fst (BotManager_init e f)) = {}"
  using assms by (auto simp: BotManager_init_def load_saved_bots_def load_try_def)

lemma BotManager_init_processes:
  assumes "distinct (map fst (persisted f))"
  shows "processes (fst (BotManager_init e f)) = respawned 0 (started_prefix e (persisted f))"
    and "live (fst (BotManager_init e f)) = {0 ..< length (started_prefix e (persisted f))}"
    and "started_prefix e (persisted f) \<noteq> persisted f \<Longrightarrow>
           last (logged (fst (BotManager_init e f))) = Error_loading OSError"
proof -
  have "processes (fst (BotManager_init e f)) = respawned 0 (started_prefix e (persisted f)) \<and>
        live (fst (BotManager_init e f)) = {0 ..< length (started_prefix e (persisted f))} \<and>
        (started_prefix e (persisted f) \<noteq> persisted f \<longrightarrow>
           last (logged (fst (BotManager_init e f))) = Error_loading OSError)"
  proof (cases f)
    case Missing
    then show ?thesis
      by (simp add: BotManager_init_def load_saved_bots_def load_try_def persisted_def)
  next
    case Unreadable
    then show ?thesis
      by (simp add: BotManager_init_def load_saved_bots_def load_try_def persisted_def)
  next
    case (Doc data)
    let ?w2 = "(empty_registry f)\<lparr>tokens := persisted f, logged := [Info_loaded (length (persisted f))]\<rparr>"
    have body: "load_try e (empty_registry f) = restart_saved e (persisted f) ?w2"
      using Doc by (simp add: load_try_def Let_def)
    have "set (map fst (persisted f)) \<inter> fst ` set (processes ?w2) = {}" by simp
    from restart_saved_processes [OF assms this, of e]
    have P: "processes (fst (restart_saved e (persisted f) ?w2)) =
               respawned 0 (started_prefix e (persisted f))"
      and L: "live (fst (restart_saved e (persisted f) ?w2)) =
               {0 ..< length (started_prefix e (persisted f))}"
      and S: "snd (restart_saved e (persisted f) ?w2) =
               (if started_prefix e (persisted f) = persisted f then None else Some OSError)"
      by simp_all
    from P L S show ?thesis
      by (simp add: BotManager_init_def load_saved_bots_fields body)
  qed
  then show "processes (fst (BotManager_init e f)) = respawned 0 (started_prefix e (persisted f))"
    and "live (fst (BotManager_init e f)) = {0 ..< length (started_prefix e (persisted f))}"
    and "started_prefix e (persisted f) \<noteq> persisted f \<Longrightarrow>
           last (logged (fst (BotManager_init e f))) = Error_loading OSError"
    by blast+
qed

subsection \<open>Examples of recovery\<close>

lemma persisted_three_bots [simp]:
  "persisted three_bots = [(''a'', ''tokA''), (''b'', ''tokB''), (''c'', ''tokC'')]"
  by (simp add: three_bots_def)

lemma failing_start_fields [simp]:
  "start_ok (failing_start b t) = (\<lambda>k. k \<noteq> b)"
  "now (failing_start b t) = t"
  "disk (failing_start b t) = Written"
  by (simp_all add: failing_start_def)

lemma stubborn_fields [simp]:
  "exits_on_term (stubborn t) = (\<lambda>_. False)"
  "start_ok (stubborn t) = (\<lambda>_. True)"
  "now (stubborn t) = t"
  "disk (stubborn t) = Written"
  by (simp_all add: stubborn_def)

text \<open>
  Claim C9. When the write succeeds, the file that \<^verbatim>\<open>save_bots\<close> leaves holds exactly
  the pairs of \<^verbatim>\<open>tokens\<close>, and a manager constructed from that file, in any environment,
  has exactly these pairs as its \<^verbatim>\<open>tokens\<close>.
\<close>

theorem save_then_load_round_trip:
  "disk e = Written \<Longrightarrow>
     persisted (data_file (save_bots e w)) = tokens w \<and>
     tokens (fst (BotManager_init e' (data_file (save_bots e w)))) = tokens w"
  by (simp add: BotManager_init_tokens save_bots_written)

theorem save_then_load_round_trip_witness:
  "disk (calm noon) = Written \<and>
   persisted (data_file (save_bots (calm noon)
     ((empty_registry Missing)\<lparr>tokens := [(''a'', ''tokA''), (''b'', ''tokB'')]\<rparr>))) =
     [(''a'', ''tokA''), (''b'', ''tokB'')] \<and>
   tokens (fst (BotManager_init (failing_start ''a'' noon) (data_file (save_bots (calm noon)
     ((empty_registry Missing)\<lparr>tokens := [(''a'', ''tokA''), (''b'', ''tokB'')]\<rparr>))))) =
     [(''a'', ''tokA''), (''b'', ''tokB'')]"
  using save_then_load_round_trip [of "calm noon"
      "(empty_registry Missing)\<lparr>tokens := [(''a'', ''tokA''), (''b'', ''tokB'')]\<rparr>"
      "failing_start ''a'' noon"]
  by simp

text \<open>
  Claim C8. \<^verbatim>\<open>BotManager()\<close> never lets an exception out of \<^verbatim>\<open>load_saved_bots\<close>. When the
  file is absent or \<^verbatim>\<open>json.load\<close> rejects it, the manager tracks nothing:
  \<^verbatim>\<open>get_bot_count()\<close> is 0 and both dictionaries are empty. When the file holds a
  snapshot (its ids pairwise different, as the keys of a dictionary are) and every
  process starts, the manager tracks one live process for every entry of the snapshot,
  in the order of the file, each under the id and with the token of its entry.
\<close>

theorem recover_all_or_start_empty:
  "snd (BotManager_init e f) = None \<and>
   (f = Missing \<or> f = Unreadable \<longrightarrow>
      get_bot_count (fst (BotManager_init e f)) = 0 \<and>
      processes (fst (BotManager_init e f)) = [] \<and>
      tokens (fst (BotManager_init e f)) = []) \<and>
   (distinct (map fst (persisted f)) \<and> (\<forall>k \<in> set (map fst (persisted f)). start_ok e k) \<longrightarrow>
      processes (fst (BotManager_init e f)) = respawned 0 (persisted f) \<and>
      get_bot_count (fst (BotManager_init e f)) = length (persisted f) \<and>
      live (fst (BotManager_init e f)) = {0 ..< length (persisted f)} \<and>
      tokens (fst (BotManager_init e f)) = persisted f)"
proof (intro conjI impI)
  show "snd (BotManager_init e f) = None"
    by (simp add: BotManager_init_def load_saved_bots_never_raises)
next
  assume "f = Missing \<or> f = Unreadable"
  then show "get_bot_count (fst (BotManager_init e f)) = 0"
    and "processes (fst (BotManager_init e f)) = []"
    and "tokens (fst (BotManager_init e f)) = []"
    by (simp_all add: BotManager_init_unreadable get_bot_count_def)
next
  assume a: "distinct (map fst (persisted f)) \<and> (\<forall>k \<in> set (map fst (persisted f)). start_ok e k)"
  then have all: "started_prefix e (persisted f) = persisted f"
    by (simp add: started_prefix_all)
  from a have d: "distinct (map fst (persisted f))" by simp
  show "processes (fst (BotManager_init e f)) = respawned 0 (persisted f)"
    using BotManager_init_processes(1) [OF d, of e] by (simp add: all)
  then show "get_bot_count (fst (BotManager_init e f)) = length (persisted f)"
    by (simp add: get_bot_count_def)
  show "live (fst (BotManager_init e f)) = {0 ..< length (persisted f)}"
    using BotManager_init_processes(2) [OF d, of e] by (simp add: all)
  show "tokens (fst (BotManager_init e f)) = persisted f"
    by (rule BotManager_init_tokens)
qed

theorem recover_all_or_start_empty_witness:
  "get_bot_count (fst (BotManager_init (calm noon) Unreadable)) = 0 \<and>
   get_bot_count (fst (BotManager_init (calm noon) Missing)) = 0 \<and>
   snd (BotManager_init (calm noon) Unreadable) = None \<and>
   processes (fst (BotManager_init (calm noon) three_bots)) =
     [(''a'', \<lparr>token = ''tokA'', bot_id = ''a'', daemon = True, pid = Some 0\<rparr>),
      (''b'', \<lparr>token = ''tokB'', bot_id = ''b'', daemon = True, pid = Some 1\<rparr>),
      (''c'', \<lparr>token = ''tokC'', bot_id = ''c'', daemon = True, pid = Some 2\<rparr>)] \<and>
   get_bot_count (fst (BotManager_init (calm noon) three_bots)) = 3"
proof -
  have "distinct (map fst (persisted three_bots)) \<and>
        (\<forall>k \<in> set (map fst (persisted three_bots)). start_ok (calm noon) k)"
    by simp
  with recover_all_or_start_empty [of "calm noon" three_bots]
  have "processes (fst (BotManager_init (calm noon) three_bots)) = respawned 0 (persisted three_bots)"
    and "get_bot_count (fst (BotManager_init (calm noon) three_bots)) = length (persisted three_bots)"
    by blast+
  then have 1: "processes (fst (BotManager_init (calm noon) three_bots)) =
     [(''a'', \<lparr>token = ''tokA'', bot_id = ''a'', daemon = True, pid = Some 0\<rparr>),
      (''b'', \<lparr>token = ''tokB'', bot_id = ''b'', daemon = True, pid = Some 1\<rparr>),
      (''c'', \<lparr>token = ''tokC'', bot_id = ''c'', daemon = True, pid = Some 2\<rparr>)]"
    and 2: "get_bot_count (fst (BotManager_init (calm noon) three_bots)) = 3"
    by (simp_all add: numeral_2_eq_2)
  from recover_all_or_start_empty [of "calm noon" Unreadable]
  have 3: "get_bot_count (fst (BotManager_init (calm noon) Unreadable)) = 0"
    and 4: "snd (BotManager_init (calm noon) Unreadable) = None"
    by blast+
  from recover_all_or_start_empty [of "calm noon" Missing]
  have 5: "get_bot_count (fst (BotManager_init (calm noon) Missing)) = 0"
    by blast
  show ?thesis by (intro conjI) (fact 1 2 3 4 5)+
qed

subsection \<open>Recovery and the stored ids\<close>

lemma set_update_subset: "set (AList.update k v xs) \<subseteq> insert (k, v) (set xs)"
  by (induction xs) auto

lemma restart_saved_ids:
  assumes "set rest \<subseteq> S"
    and "\<forall>(k, p) \<in> set (processes w). bot_id p = k \<and> (k, token p) \<in> S"
  shows "\<forall>(k, p) \<in> set (processes (fst (restart_saved e rest w))). bot_id p = k \<and> (k, token p) \<in> S"
  using assms
proof (induction e rest w rule: restart_saved.induct)
  case (1 e w)
  then show ?case by simp
next
  case (2 e bid tok rest w)
  show ?case
  proof (cases "start_ok e bid")
    case False
    with "2.prems" show ?thesis by (simp add: Let_def start_def BotProcess_init_def)
  next
    case True
    let ?w1 = "w\<lparr>logged := logged w @ [Info_restarting bid]\<rparr>"
    let ?p = "\<lparr>token = tok, bot_id = bid, daemon = True, pid = Some (next_pid w)\<rparr>"
    let ?w2 = "?w1\<lparr>live := insert (next_pid w) (live w), next_pid := Suc (next_pid w)\<rparr>"
    let ?w3 = "?w2\<lparr>processes := AList.update bid ?p (processes ?w2)\<rparr>"
    have st: "start e ?w1 (BotProcess_init tok bid) = Some (?w2, ?p)"
      using True by (simp add: start_def BotProcess_init_def)
    have step: "restart_saved e ((bid, tok) # rest) w = restart_saved e rest ?w3"
      by (simp add: Let_def st)
    from "2.prems" have sub: "set rest \<subseteq> S" and here: "(bid, tok) \<in> S" by auto
    have "set (processes ?w3) \<subseteq> insert (bid, ?p) (set (processes w))"
      using set_update_subset [of bid ?p "processes w"] by simp
    with "2.prems"(2) here
    have "\<forall>(k, p) \<in> set (processes ?w3). bot_id p = k \<and> (k, token p) \<in> S"
      by auto
    from "2.IH" [OF refl st refl sub this] show ?thesis
      by (simp only: step)
  qed
qed

lemma restart_saved_Cons:
  "restart_saved e ((bid, tok) # rest) w =
     (if start_ok e bid
      then restart_saved e rest
             (w\<lparr>logged := logged w @ [Info_restarting bid],
                live := insert (next_pid w) (live w), next_pid := Suc (next_pid w),
                processes := AList.update bid
                  \<lparr>token = tok, bot_id = bid, daemon = True, pid = Some (next_pid w)\<rparr>
                  (processes w)\<rparr>)
      else (w\<lparr>logged := logged w @ [Info_restarting bid]\<rparr>, Some OSError))"
  by (simp add: Let_def start_def BotProcess_init_def)

lemma restart_saved_clock: "restart_saved (e\<lparr>now := t\<rparr>) rest w = restart_saved e rest w"
proof (induction rest arbitrary: w)
  case Nil
  show ?case by simp
next
  case (Cons x rest)
  obtain bid tok where x: "x = (bid, tok)" by (cases x)
  show ?case unfolding x restart_saved_Cons by (simp add: Cons.IH)
qed

lemma BotManager_init_clock: "BotManager_init (e\<lparr>now := t\<rparr>) f = BotManager_init e f"
  by (simp add: BotManager_init_def load_saved_bots_def load_try_def restart_saved_clock Let_def
      split: file_state.splits)

text \<open>
  Claim C5. Every process that \<^verbatim>\<open>BotManager()\<close> tracks after \<^verbatim>\<open>load_saved_bots\<close> was
  constructed with the id it is stored under, and that id with the token of the process
  is an entry of the snapshot in the file. No id is minted: the clock is not read, so the
  result is the same at any time.
\<close>

theorem recovery_keeps_stored_id:
  "((k, p) \<in> set (processes (fst (BotManager_init e f))) \<longrightarrow>
      bot_id p = k \<and> (k, token p) \<in> set (persisted f)) \<and>
   BotManager_init (e\<lparr>now := t\<rparr>) f = BotManager_init e f"
proof -
  have "\<forall>(k, p) \<in> set (processes (fst (BotManager_init e f))).
          bot_id p = k \<and> (k, token p) \<in> set (persisted f)"
  proof (cases f)
    case Missing
    then show ?thesis by (simp add: BotManager_init_unreadable)
  next
    case Unreadable
    then show ?thesis by (simp add: BotManager_init_unreadable)
  next
    case (Doc data)
    let ?w2 = "(empty_registry f)\<lparr>tokens := persisted f, logged := [Info_loaded (length (persisted f))]\<rparr>"
    have body: "load_try e (empty_registry f) = restart_saved e (persisted f) ?w2"
      using Doc by (simp add: load_try_def Let_def)
    have "\<forall>(k, p) \<in> set (processes ?w2). bot_id p = k \<and> (k, token p) \<in> set (persisted f)"
      by simp
    from restart_saved_ids [OF subset_refl this, of e] show ?thesis
      by (simp add: BotManager_init_def load_saved_bots_fields body)
  qed
  then show ?thesis by (auto simp: BotManager_init_clock)
qed

theorem recovery_keeps_stored_id_witness:
  "(''b'', \<lparr>token = ''tokB'', bot_id = ''b'', daemon = True, pid = Some 1\<rparr>)
     \<in> set (processes (fst (BotManager_init (calm noon) three_bots))) \<and>
   bot_id \<lparr>token = ''tokB'', bot_id = ''b'', daemon = True, pid = Some 1\<rparr> = ''b'' \<and>
   (''b'', token \<lparr>token = ''tokB'', bot_id = ''b'', daemon = True, pid = Some 1\<rparr>)
     \<in> set (persisted three_bots) \<and>
   BotManager_init ((calm noon)\<lparr>now := noon_and_one\<rparr>) three_bots =
     BotManager_init (calm noon) three_bots"
proof -
  let ?p = "\<lparr>token = ''tokB'', bot_id = ''b'', daemon = True, pid = Some 1\<rparr>"
  have "distinct (map fst (persisted three_bots))" by simp
  from BotManager_init_processes(1) [OF this, of "calm noon"]
  have "processes (fst (BotManager_init (calm noon) three_bots)) =
          respawned 0 [(''a'', ''tokA''), (''b'', ''tokB''), (''c'', ''tokC'')]"
    by simp
  then have 1: "(''b'', ?p) \<in> set (processes (fst (BotManager_init (calm noon) three_bots)))"
    by simp
  with recovery_keeps_stored_id [of "''b''" ?p "calm noon" three_bots noon_and_one]
  have 2: "bot_id ?p = ''b''" and 3: "(''b'', token ?p) \<in> set (persisted three_bots)"
    and 4: "BotManager_init ((calm noon)\<lparr>now := noon_and_one\<rparr>) three_bots =
     BotManager_init (calm noon) three_bots"
    by blast+
  show ?thesis by (intro conjI) (fact 1 2 3 4)+
qed

subsection \<open>A process that does not start during recovery\<close>

lemma BotManager_init_never_raises: "snd (BotManager_init e f) = None"
  by (simp add: BotManager_init_def load_saved_bots_never_raises)

lemma BotManager_init_failing_b:
  "processes (fst (BotManager_init (failing_start ''b'' noon) three_bots)) =
     [(''a'', \<lparr>token = ''tokA'', bot_id = ''a'', daemon = True, pid = Some 0\<rparr>)]"
  "live (fst (BotManager_init (failing_start ''b'' noon) three_bots)) = {0}"
  "tokens (fst (BotManager_init (failing_start ''b'' noon) three_bots)) =
     [(''a'', ''tokA''), (''b'', ''tokB''), (''c'', ''tokC'')]"
  "data_file (fst (BotManager_init (failing_start ''b'' noon) three_bots)) = three_bots"
proof -
  have d: "distinct (map fst (persisted three_bots))" by simp
  show "processes (fst (BotManager_init (failing_start ''b'' noon) three_bots)) =
     [(''a'', \<lparr>token = ''tokA'', bot_id = ''a'', daemon = True, pid = Some 0\<rparr>)]"
    using BotManager_init_processes(1) [OF d, of "failing_start ''b'' noon"] by simp
  show "live (fst (BotManager_init (failing_start ''b'' noon) three_bots)) = {0}"
    using BotManager_init_processes(2) [OF d, of "failing_start ''b'' noon"] by simp
  show "tokens (fst (BotManager_init (failing_start ''b'' noon) three_bots)) =
     [(''a'', ''tokA''), (''b'', ''tokB''), (''c'', ''tokC'')]"
    by (simp add: BotManager_init_tokens)
  show "data_file (fst (BotManager_init (failing_start ''b'' noon) three_bots)) = three_bots"
    by (rule BotManager_init_file)
qed

text \<open>
  Claim C7, as stated, fails. The file holds the bots \<open>a\<close>, \<open>b\<close> and \<open>c\<close>, and the process
  of \<open>b\<close> does not start. The process of \<open>c\<close> would start, and \<open>c\<close> is an entry of the
  snapshot, but the recovery does not reach it: \<open>c\<close> is not in \<^verbatim>\<open>processes\<close>. Nor is the
  failed entry dropped: \<open>b\<close> is still in \<^verbatim>\<open>tokens\<close>.
\<close>

theorem recovery_aborts_after_failed_start:
  "(''c'', ''tokC'') \<in> set (persisted three_bots) \<and>
   start_ok (failing_start ''b'' noon) ''c'' \<and>
   \<not> has_key (processes (fst (BotManager_init (failing_start ''b'' noon) three_bots))) ''c'' \<and>
   has_key (tokens (fst (BotManager_init (failing_start ''b'' noon) three_bots))) ''b''"
  by (simp add: BotManager_init_failing_b has_key_def)

text \<open>
  Claim C7, amended. A \<^verbatim>\<open>start()\<close> that raises during \<^verbatim>\<open>load_saved_bots\<close> ends the
  recovery: the entries of the snapshot before the first one whose process does not
  start are re-spawned and inserted, each under its stored id, and no entry after it is
  visited. \<^verbatim>\<open>tokens\<close> and the file keep every entry of the snapshot, the failed one
  included. The exception is logged and does not leave \<^verbatim>\<open>load_saved_bots\<close>.
\<close>

theorem recovery_up_to_first_failed_start:
  "distinct (map fst (persisted f)) \<Longrightarrow>
     processes (fst (BotManager_init e f)) = respawned 0 (started_prefix e (persisted f)) \<and>
     tokens (fst (BotManager_init e f)) = persisted f \<and>
     data_file (fst (BotManager_init e f)) = f \<and>
     snd (BotManager_init e f) = None \<and>
     (started_prefix e (persisted f) \<noteq> persisted f \<longrightarrow>
        last (logged (fst (BotManager_init e f))) = Error_loading OSError)"
  using BotManager_init_processes(1,3) [of f e]
  by (simp add: BotManager_init_tokens BotManager_init_file BotManager_init_never_raises)

theorem recovery_up_to_first_failed_start_witness:
  "distinct (map fst (persisted three_bots)) \<and>
   started_prefix (failing_start ''b'' noon) (persisted three_bots) = [(''a'', ''tokA'')] \<and>
   processes (fst (BotManager_init (failing_start ''b'' noon) three_bots)) =
     [(''a'', \<lparr>token = ''tokA'', bot_id = ''a'', daemon = True, pid = Some 0\<rparr>)] \<and>
   tokens (fst (BotManager_init (failing_start ''b'' noon) three_bots)) =
     [(''a'', ''tokA''), (''b'', ''tokB''), (''c'', ''tokC'')] \<and>
   last (logged (fst (BotManager_init (failing_start ''b'' noon) three_bots))) =
     Error_loading OSError"
proof -
  have d: "distinct (map fst (persisted three_bots))" by simp
  have s: "started_prefix (failing_start ''b'' noon) (persisted three_bots) = [(''a'', ''tokA'')]"
    by simp
  then have n: "started_prefix (failing_start ''b'' noon) (persisted three_bots) \<noteq>
      persisted three_bots"
    by simp
  from recovery_up_to_first_failed_start [OF d, of "failing_start ''b'' noon"] n
  have p: "processes (fst (BotManager_init (failing_start ''b'' noon) three_bots)) =
      respawned 0 (started_prefix (failing_start ''b'' noon) (persisted three_bots))"
    and t: "tokens (fst (BotManager_init (failing_start ''b'' noon) three_bots)) =
      persisted three_bots"
    and l: "last (logged (fst (BotManager_init (failing_start ''b'' noon) three_bots))) =
      Error_loading OSError"
    by blast+
  from p have p': "processes (fst (BotManager_init (failing_start ''b'' noon) three_bots)) =
     [(''a'', \<lparr>token = ''tokA'', bot_id = ''a'', daemon = True, pid = Some 0\<rparr>)]"
    by (simp only: s) simp
  from t have t': "tokens (fst (BotManager_init (failing_start ''b'' noon) three_bots)) =
     [(''a'', ''tokA''), (''b'', ''tokB''), (''c'', ''tokC'')]"
    by simp
  show ?thesis by (intro conjI) (fact d s p' t' l)+
qed

subsection \<open>\<^verbatim>\<open>stop_all_bots\<close>\<close>

lemma delete_as_filter: "AList.delete k xs = filter (\<lambda>x. fst x \<noteq> k) xs"
  by (induction xs) auto

lemma stop_loop_fields:
  "processes (stop_loop e ks w) = filter (\<lambda>x. fst x \<notin> set ks) (processes w) \<and>
   tokens (stop_loop e ks w) = filter (\<lambda>x. fst x \<notin> set ks) (tokens w)"
proof (induction ks arbitrary: w)
  case Nil
  show ?case by simp
next
  case (Cons k ks)
  have "filter (\<lambda>x. fst x \<notin> set ks) (filter (\<lambda>x. fst x \<noteq> k) xs) =
        filter (\<lambda>x. fst x \<notin> set (k # ks)) xs" for xs :: "(string \<times> 'a) list"
    by (induction xs) auto
  then show ?case
    by (simp add: Cons.IH processes_remove_bot tokens_remove_bot delete_as_filter)
qed

lemma remove_bot_in_step:
  assumes "disk e = Written" and "persisted (data_file w) = tokens w"
  shows "persisted (data_file (remove_bot e w bid)) = tokens (remove_bot e w bid)"
proof (cases "has_key (tokens w) bid")
  case True
  with assms(1) show ?thesis
    by (simp add: remove_bot_def Let_def save_bots_written terminate_join_def
        split: option.splits)
next
  case False
  then have "AList.delete bid (tokens w) = tokens w"
    by (simp add: has_key_def)
  with False assms(2) show ?thesis
    by (simp add: remove_bot_def Let_def terminate_join_def tokens_remove_bot split: option.splits)
qed

lemma stop_loop_in_step:
  "disk e = Written \<Longrightarrow> persisted (data_file w) = tokens w \<Longrightarrow>
     persisted (data_file (stop_loop e ks w)) = tokens (stop_loop e ks w)"
  by (induction ks arbitrary: w) (simp_all add: remove_bot_in_step)

lemma stop_all_bots_fields:
  "processes (stop_all_bots e w) = []"
  "tokens (stop_all_bots e w) = filter (\<lambda>x. \<not> has_key (processes w) (fst x)) (tokens w)"
proof -
  have "filter (\<lambda>x. fst x \<notin> set (map fst xs)) xs = []" for xs :: "(string \<times> BotProcess) list"
    by (simp add: filter_empty_conv)
  then show "processes (stop_all_bots e w) = []"
    by (simp add: stop_all_bots_def Let_def stop_loop_fields)
  show "tokens (stop_all_bots e w) = filter (\<lambda>x. \<not> has_key (processes w) (fst x)) (tokens w)"
    by (simp add: stop_all_bots_def Let_def stop_loop_fields has_key_def)
qed

lemma stop_all_bots_in_step:
  "disk e = Written \<Longrightarrow> persisted (data_file w) = tokens w \<Longrightarrow>
     persisted (data_file (stop_all_bots e w)) = tokens (stop_all_bots e w)"
  using stop_loop_in_step [of e w "map fst (processes w)"]
  by (simp add: stop_all_bots_def Let_def)

text \<open>
  Claim C3, as stated, fails in a state that the program reaches. The file holds the
  bots \<open>a\<close>, \<open>b\<close> and \<open>c\<close>, and at the construction of the manager the process of \<open>b\<close>
  does not start. After \<^verbatim>\<open>stop_all_bots\<close>, with every write succeeding, no process is
  tracked, but the file still holds \<open>b\<close> and \<open>c\<close>.
\<close>

theorem stop_all_leaves_untracked_tokens:
  "get_bot_count (stop_all_bots (calm noon)
     (fst (BotManager_init (failing_start ''b'' noon) three_bots))) = 0 \<and>
   persisted (data_file (stop_all_bots (calm noon)
     (fst (BotManager_init (failing_start ''b'' noon) three_bots)))) =
     [(''b'', ''tokB''), (''c'', ''tokC'')]"
proof -
  let ?w = "fst (BotManager_init (failing_start ''b'' noon) three_bots)"
  have "persisted (data_file ?w) = tokens ?w"
    by (simp add: BotManager_init_failing_b)
  then have "persisted (data_file (stop_all_bots (calm noon) ?w)) =
      tokens (stop_all_bots (calm noon) ?w)"
    by (simp add: stop_all_bots_in_step)
  also have "\<dots> = [(''b'', ''tokB''), (''c'', ''tokC'')]"
    by (simp add: stop_all_bots_fields BotManager_init_failing_b has_key_def)
  finally show ?thesis
    by (simp add: get_bot_count_def stop_all_bots_fields)
qed

text \<open>
  Claim C3, amended. After \<^verbatim>\<open>stop_all_bots\<close>, in every state, \<^verbatim>\<open>get_bot_count()\<close> is 0 and
  \<^verbatim>\<open>tokens\<close> has lost exactly the ids that were tracked in \<^verbatim>\<open>processes\<close>. The persisted
  snapshot is empty afterwards when, before the call, every id of \<^verbatim>\<open>tokens\<close> was tracked
  in \<^verbatim>\<open>processes\<close> and the file held the pairs of \<^verbatim>\<open>tokens\<close>, and the writes succeed.
\<close>

theorem stop_all_clears_tracked:
  "get_bot_count (stop_all_bots e w) = 0 \<and>
   tokens (stop_all_bots e w) = filter (\<lambda>x. \<not> has_key (processes w) (fst x)) (tokens w) \<and>
   ((\<forall>k \<in> set (map fst (tokens w)). has_key (processes w) k) \<and>
    persisted (data_file w) = tokens w \<and> disk e = Written \<longrightarrow>
      tokens (stop_all_bots e w) = [] \<and> persisted (data_file (stop_all_bots e w)) = [])"
proof (intro conjI impI)
  show "get_bot_count (stop_all_bots e w) = 0"
    by (simp add: get_bot_count_def stop_all_bots_fields)
  show "tokens (stop_all_bots e w) = filter (\<lambda>x. \<not> has_key (processes w) (fst x)) (tokens w)"
    by (rule stop_all_bots_fields)
next
  assume a: "(\<forall>k \<in> set (map fst (tokens w)). has_key (processes w) k) \<and>
    persisted (data_file w) = tokens w \<and> disk e = Written"
  then show "tokens (stop_all_bots e w) = []"
    by (auto simp: stop_all_bots_fields filter_empty_conv)
  with a show "persisted (data_file (stop_all_bots e w)) = []"
    by (simp add: stop_all_bots_in_step)
qed

theorem stop_all_clears_tracked_witness:
  "get_bot_count (fst (BotManager_init (calm noon) three_bots)) = 3 \<and>
   persisted (data_file (fst (BotManager_init (calm noon) three_bots))) =
     [(''a'', ''tokA''), (''b'', ''tokB''), (''c'', ''tokC'')] \<and>
   get_bot_count (stop_all_bots (calm noon_and_one) (fst (BotManager_init (calm noon) three_bots))) = 0 \<and>
   tokens (stop_all_bots (calm noon_and_one) (fst (BotManager_init (calm noon) three_bots))) = [] \<and>
   persisted (data_file
     (stop_all_bots (calm noon_and_one) (fst (BotManager_init (calm noon) three_bots)))) = []"
proof -
  let ?w = "fst (BotManager_init (calm noon) three_bots)"
  have d: "distinct (map fst (persisted three_bots))" by simp
  have p: "processes ?w = respawned 0 (persisted three_bots)"
    using BotManager_init_processes(1) [OF d, of "calm noon"] by simp
  have t: "tokens ?w = persisted three_bots" by (rule BotManager_init_tokens)
  have f: "data_file ?w = three_bots" by (rule BotManager_init_file)
  have 1: "get_bot_count ?w = 3" by (simp add: get_bot_count_def p)
  have 2: "persisted (data_file ?w) = [(''a'', ''tokA''), (''b'', ''tokB''), (''c'', ''tokC'')]"
    by (simp add: f)
  have "(\<forall>k \<in> set (map fst (tokens ?w)). has_key (processes ?w) k) \<and>
    persisted (data_file ?w) = tokens ?w \<and> disk (calm noon_and_one) = Written"
    by (simp add: p t f has_key_def)
  with stop_all_clears_tracked [of "calm noon_and_one" ?w]
  have 3: "get_bot_count (stop_all_bots (calm noon_and_one) ?w) = 0"
    and 4: "tokens (stop_all_bots (calm noon_and_one) ?w) = []"
    and 5: "persisted (data_file (stop_all_bots (calm noon_and_one) ?w)) = []"
    by blast+
  show ?thesis by (intro conjI) (fact 1 2 3 4 5)+
qed

subsection \<open>\<^verbatim>\<open>remove_bot\<close> on a tracked id\<close>

lemma first_launch:
  "snd (handle_token (calm noon) (empty_registry Missing) ''tokA'') = Launched ''bot_20260102_120000''"
  "processes (fst (handle_token (calm noon) (empty_registry Missing) ''tokA'')) =
     [(''bot_20260102_120000'',
       \<lparr>token = ''tokA'', bot_id = ''bot_20260102_120000'', daemon = True, pid = Some 0\<rparr>)]"
  "tokens (fst (handle_token (calm noon) (empty_registry Missing) ''tokA'')) =
     [(''bot_20260102_120000'', ''tokA'')]"
  "live (fst (handle_token (calm noon) (empty_registry Missing) ''tokA'')) = {0}"
  "next_pid (fst (handle_token (calm noon) (empty_registry Missing) ''tokA'')) = 1"
  "data_file (fst (handle_token (calm noon) (empty_registry Missing) ''tokA'')) =
     Doc [(''tokens'', [(''bot_20260102_120000'', ''tokA'')])]"
  by (simp_all add: handle_token_cases Let_def add_bot_fields validate_token_fst
      is_token_used_def get_bot_count_def MAX_BOTS_def new_bot_id_noon add_bot_def
      save_bots_def)

lemma remove_bot_tracked:
  assumes "map_of (processes w) bid = Some p"
  shows "live (remove_bot e w bid) =
           (case pid p of
              None \<Rightarrow> live w
            | Some n \<Rightarrow> if n \<in> live w \<and> exits_on_term e n then live w - {n} else live w)"
    and "has_key (tokens w) bid \<Longrightarrow> disk e = Written \<Longrightarrow>
           persisted (data_file (remove_bot e w bid)) = tokens (remove_bot e w bid)"
    and "\<not> has_key (tokens w) bid \<Longrightarrow> data_file (remove_bot e w bid) = data_file w"
  using assms
  by (auto simp: remove_bot_def Let_def is_alive_def terminate_join_def save_bots_def
      split: option.splits write_outcome.splits)

text \<open>
  Claim C4, as stated, fails. One bot is launched and its process (process id 0) does
  not exit within the five seconds that \<^verbatim>\<open>join\<close> waits after \<^verbatim>\<open>terminate()\<close>. After
  \<^verbatim>\<open>remove_bot\<close> the id is no longer tracked, and the process is still alive: nothing
  force-stops it.
\<close>

theorem remove_bot_leaves_stubborn_process_alive:
  "has_key (processes (fst (handle_token (calm noon) (empty_registry Missing) ''tokA'')))
     ''bot_20260102_120000'' \<and>
   \<not> has_key (processes (remove_bot (stubborn noon_and_one)
        (fst (handle_token (calm noon) (empty_registry Missing) ''tokA''))
        ''bot_20260102_120000'')) ''bot_20260102_120000'' \<and>
   is_alive (remove_bot (stubborn noon_and_one)
        (fst (handle_token (calm noon) (empty_registry Missing) ''tokA''))
        ''bot_20260102_120000'')
     \<lparr>token = ''tokA'', bot_id = ''bot_20260102_120000'', daemon = True, pid = Some 0\<rparr>"
proof -
  let ?w = "fst (handle_token (calm noon) (empty_registry Missing) ''tokA'')"
  let ?p = "\<lparr>token = ''tokA'', bot_id = ''bot_20260102_120000'', daemon = True, pid = Some 0\<rparr>"
  have m: "map_of (processes ?w) ''bot_20260102_120000'' = Some ?p"
    by (simp add: first_launch)
  have "live (remove_bot (stubborn noon_and_one) ?w ''bot_20260102_120000'') = {0}"
    using remove_bot_tracked(1) [OF m, of "stubborn noon_and_one"] by (simp add: first_launch)
  then show ?thesis
    by (simp add: is_alive_def has_key_def first_launch processes_remove_bot)
qed

text \<open>
  Claim C4, amended. For every tracked id, \<^verbatim>\<open>remove_bot\<close> calls \<^verbatim>\<open>terminate()\<close> and then
  \<^verbatim>\<open>join(timeout=5)\<close> when the process is alive, and does nothing more to the process: it
  is gone afterwards exactly when it exited within these five seconds, and it is left
  running otherwise. The record is removed from \<^verbatim>\<open>processes\<close>, the id is removed from
  \<^verbatim>\<open>tokens\<close>, and when the id was in \<^verbatim>\<open>tokens\<close> and the write succeeds the file holds the
  new \<^verbatim>\<open>tokens\<close>.
\<close>

theorem remove_bot_terminates_and_forgets:
  "map_of (processes w) bid = Some p \<Longrightarrow>
     live (remove_bot e w bid) =
       (case pid p of
          None \<Rightarrow> live w
        | Some n \<Rightarrow> if n \<in> live w \<and> exits_on_term e n then live w - {n} else live w) \<and>
     processes (remove_bot e w bid) = AList.delete bid (processes w) \<and>
     \<not> has_key (processes (remove_bot e w bid)) bid \<and>
     tokens (remove_bot e w bid) = AList.delete bid (tokens w) \<and>
     (has_key (tokens w) bid \<and> disk e = Written \<longrightarrow>
        persisted (data_file (remove_bot e w bid)) = tokens (remove_bot e w bid))"
  using remove_bot_tracked(1,2) [of w bid p e] delete_notin_dom [of bid "processes w"]
  by (simp add: processes_remove_bot tokens_remove_bot has_key_def)

theorem remove_bot_terminates_and_forgets_witness:
  "map_of (processes (fst (handle_token (calm noon) (empty_registry Missing) ''tokA'')))
     ''bot_20260102_120000'' =
     Some \<lparr>token = ''tokA'', bot_id = ''bot_20260102_120000'', daemon = True, pid = Some 0\<rparr> \<and>
   live (remove_bot (calm noon_and_one)
     (fst (handle_token (calm noon) (empty_registry Missing) ''tokA'')) ''bot_20260102_120000'') = {} \<and>
   processes (remove_bot (calm noon_and_one)
     (fst (handle_token (calm noon) (empty_registry Missing) ''tokA'')) ''bot_20260102_120000'') = [] \<and>
   persisted (data_file (remove_bot (calm noon_and_one)
     (fst (handle_token (calm noon) (empty_registry Missing) ''tokA'')) ''bot_20260102_120000'')) = []"
proof -
  let ?w = "fst (handle_token (calm noon) (empty_registry Missing) ''tokA'')"
  let ?p = "\<lparr>token = ''tokA'', bot_id = ''bot_20260102_120000'', daemon = True, pid = Some 0\<rparr>"
  let ?w' = "remove_bot (calm noon_and_one) ?w ''bot_20260102_120000''"
  have m: "map_of (processes ?w) ''bot_20260102_120000'' = Some ?p"
    by (simp add: first_launch)
  have k: "has_key (tokens ?w) ''bot_20260102_120000'' \<and> disk (calm noon_and_one) = Written"
    by (simp add: first_launch has_key_def)
  from remove_bot_terminates_and_forgets [OF m, of "calm noon_and_one"] k
  have l: "live ?w' = (case pid ?p of None \<Rightarrow> live ?w
        | Some n \<Rightarrow> if n \<in> live ?w \<and> exits_on_term (calm noon_and_one) n
                    then live ?w - {n} else live ?w)"
    and p: "processes ?w' = AList.delete ''bot_20260102_120000'' (processes ?w)"
    and t: "tokens ?w' = AList.delete ''bot_20260102_120000'' (tokens ?w)"
    and f: "persisted (data_file ?w') = tokens ?w'"
    by blast+
  from l have 1: "live ?w' = {}" by (simp add: first_launch)
  from p have 2: "processes ?w' = []" by (simp add: first_launch)
  from f t have 3: "persisted (data_file ?w') = []" by (simp add: first_launch)
  show ?thesis by (intro conjI) (fact m 1 2 3)+
qed

subsection \<open>Two tokens within one second\<close>

text \<open>
  Claim C6 against the code. Two different valid tokens reach \<^verbatim>\<open>handle_token\<close> half a
  second apart, on an empty registry. Both are answered with the same id, because the id
  is the clock printed to the second. The second \<^verbatim>\<open>add_bot\<close> overwrites the record of the
  first: one record is tracked, with the second token, and the process of the first
  token (process id 0) is alive and tracked by nothing.
\<close>

theorem same_second_ids_collide:
  "microsecond noon \<noteq> microsecond noon_and_a_half \<and>
   snd (handle_token (calm noon) (empty_registry Missing) ''tokA'') =
     Launched ''bot_20260102_120000'' \<and>
   snd (handle_token (calm noon_and_a_half)
          (fst (handle_token (calm noon) (empty_registry Missing) ''tokA'')) ''tokB'') =
     Launched ''bot_20260102_120000'' \<and>
   processes (fst (handle_token (calm noon_and_a_half)
          (fst (handle_token (calm noon) (empty_registry Missing) ''tokA'')) ''tokB'')) =
     [(''bot_20260102_120000'',
       \<lparr>token = ''tokB'', bot_id = ''bot_20260102_120000'', daemon = True, pid = Some 1\<rparr>)] \<and>
   tokens (fst (handle_token (calm noon_and_a_half)
          (fst (handle_token (calm noon) (empty_registry Missing) ''tokA'')) ''tokB'')) =
     [(''bot_20260102_120000'', ''tokB'')] \<and>
   live (fst (handle_token (calm noon_and_a_half)
          (fst (handle_token (calm noon) (empty_registry Missing) ''tokA'')) ''tokB'')) = {0, 1}"
proof -
  let ?w1 = "fst (handle_token (calm noon) (empty_registry Missing) ''tokA'')"
  have 0: "microsecond noon \<noteq> microsecond noon_and_a_half"
    by (simp add: noon_and_a_half_def noon_def)
  have go: "api_accepts (calm noon_and_a_half) ''tokB'' \<and> \<not> is_token_used ?w1 ''tokB'' \<and>
      \<not> MAX_BOTS \<le> get_bot_count ?w1 \<and>
      start_ok (calm noon_and_a_half) (new_bot_id (now (calm noon_and_a_half)))"
    by (simp add: is_token_used_def get_bot_count_def MAX_BOTS_def first_launch)
  have second: "handle_token (calm noon_and_a_half) ?w1 ''tokB'' =
      (add_bot (calm noon_and_a_half)
         ((fst (validate_token (calm noon_and_a_half) ?w1 ''tokB''))
            \<lparr>live := insert (next_pid ?w1) (live ?w1), next_pid := Suc (next_pid ?w1)\<rparr>)
         ''bot_20260102_120000'' ''tokB''
         \<lparr>token = ''tokB'', bot_id = ''bot_20260102_120000'', daemon = True,
            pid = Some (next_pid ?w1)\<rparr>,
       Launched ''bot_20260102_120000'')"
    using go by (simp add: handle_token_cases [of "calm noon_and_a_half" ?w1] Let_def
        new_bot_id_noon_and_a_half)
  have 1: "snd (handle_token (calm noon) (empty_registry Missing) ''tokA'') =
      Launched ''bot_20260102_120000''"
    by (rule first_launch)
  have 2: "snd (handle_token (calm noon_and_a_half) ?w1 ''tokB'') = Launched ''bot_20260102_120000''"
    by (simp add: second)
  have 3: "processes (fst (handle_token (calm noon_and_a_half) ?w1 ''tokB'')) =
     [(''bot_20260102_120000'',
       \<lparr>token = ''tokB'', bot_id = ''bot_20260102_120000'', daemon = True, pid = Some 1\<rparr>)]"
    by (simp add: second add_bot_fields validate_token_fst first_launch)
  have 4: "tokens (fst (handle_token (calm noon_and_a_half) ?w1 ''tokB'')) =
     [(''bot_20260102_120000'', ''tokB'')]"
    by (simp add: second add_bot_fields validate_token_fst first_launch)
  have 5: "live (fst (handle_token (calm noon_and_a_half) ?w1 ''tokB'')) = {0, 1}"
    by (auto simp: second add_bot_fields first_launch)
  show ?thesis by (intro conjI) (fact 0 1 2 3 4 5)+
qed

end
